theory Spec2Isabelle
  imports Main "HOL-Library.Sublist"
begin

section \<open>Python values and exceptions\<close>

text \<open>
  Attribute values are compared by the source with Python's \<open>!=\<close>. The values modelled
  are \<open>None\<close>, integers (a Python \<open>bool\<close> is the integer 0 or 1), strings and references
  to objects with the default identity equality; on these Python's \<open>==\<close> is equality.
\<close>

datatype pyval = PyNone | PyInt int | PyStr string | PyObj nat

text \<open>
  Exceptions. \<open>ValueError\<close> and \<open>KeyError\<close> are the two the modelled code and its
  containers raise themselves; \<open>Exception msg\<close> is any other instance of Python's class
  \<open>Exception\<close>; \<open>BaseException msg\<close> is an exception that is not an instance of
  \<open>Exception\<close> (\<open>SystemExit\<close>, \<open>KeyboardInterrupt\<close>, \<open>asyncio.CancelledError\<close>), which
  an \<open>except Exception\<close> clause does not catch.
\<close>

datatype exn = ValueError string | KeyError string | Exception string | BaseException string

fun is_Exception :: "exn \<Rightarrow> bool" where
  "is_Exception (BaseException msg) = False"
| "is_Exception e = True"

section \<open>sql/hooks.py\<close>

definition HOOK_NAMES :: "string list" where
  "HOOK_NAMES = [''on_guild_join'', ''on_guild_leave'']"

text \<open>The module-level dictionary \<open>_hooks = {name: [] for name in HOOK_NAMES}\<close>.\<close>

definition hooks_init :: "string \<rightharpoonup> 'h list" where
  "hooks_init = map_of (map (\<lambda>name. (name, [])) HOOK_NAMES)"

text \<open>
  \<open>register_hook(name, hook)\<close>. The dictionary is mutated in place, so the model returns
  the dictionary after the call together with the exception raised, if any. The subscript
  \<open>_hooks[name]\<close> of a plain dictionary raises \<open>KeyError\<close> on a missing key.
\<close>

definition register_hook ::
  "(string \<rightharpoonup> 'h list) \<Rightarrow> string \<Rightarrow> 'h \<Rightarrow> (string \<rightharpoonup> 'h list) \<times> exn option" where
  "register_hook hooks name hook =
     (if name \<notin> set HOOK_NAMES then (hooks, Some (ValueError (''No such hook type: '' @ name)))
      else case hooks name of
             None \<Rightarrow> (hooks, Some (KeyError name))
           | Some registered \<Rightarrow> (hooks(name \<mapsto> registered @ [hook]), None))"

text \<open>A sequence of \<open>register_hook\<close> calls, each on the dictionary the previous one left.\<close>

fun register_hooks :: "(string \<rightharpoonup> 'h list) \<Rightarrow> (string \<times> 'h) list \<Rightarrow> (string \<rightharpoonup> 'h list)" where
  "register_hooks hooks [] = hooks"
| "register_hooks hooks ((name, hook) # calls) =
     register_hooks (fst (register_hook hooks name hook)) calls"






section \<open>journal/router.py\<close>

subsection \<open>Paths\<close>

text \<open>
  A \<open>pathlib.PurePath\<close> is its anchor (drive and root: \<open>''/''\<close> for an absolute POSIX
  path, empty for a relative one) and the names below it; two paths are equal when both
  agree. \<open>parents\<close> is the sequence \<open>PurePath.parents\<close>: its element \<open>idx\<close> drops the last
  \<open>idx + 1\<close> names, and its length is the number of names, so it ends with the anchor alone.
\<close>

datatype path = PurePath (anchor: string) (names: "string list")

definition parents :: "path \<Rightarrow> path list" where
  "parents p =
     map (\<lambda>idx. PurePath (anchor p) (take (length (names p) - idx - 1) (names p)))
       [0..<length (names p)]"

text \<open>
  \<open>q\<close> is \<open>p\<close> or an ancestor of \<open>p\<close>; \<open>q\<close> is an ancestor (a strict prefix) of \<open>p\<close>.
\<close>

definition path_prefix :: "path \<Rightarrow> path \<Rightarrow> bool" where
  "path_prefix q p \<longleftrightarrow> anchor q = anchor p \<and> prefix (names q) (names p)"

definition ancestor :: "path \<Rightarrow> path \<Rightarrow> bool" where
  "ancestor q p \<longleftrightarrow> anchor q = anchor p \<and> strict_prefix (names q) (names p)"

subsection \<open>Coroutines and \<open>asyncio.gather\<close>\<close>

text \<open>
  The coroutine object a call of \<open>listener.handle\<close> returns is opaque to the router. Once
  started by the scheduler it completes \<open>duration\<close> units of scheduler time later, either
  returning (\<open>outcome = None\<close>) or raising (\<open>outcome = Some e\<close>).
\<close>

record coro =
  duration :: nat
  outcome :: "exn option"

text \<open>
  \<open>await asyncio.gather(*aws)\<close> with the default \<open>return_exceptions=False\<close>, as the
  library documents it: every awaitable is started as a task; when all have returned the
  await returns; the first exception raised by one of them is propagated at once to the
  awaiting task, and the other awaitables are not cancelled and go on running.
  The result is the time the await takes and the exception it raises, if any.
  \<open>earliest f fs\<close> is the first to complete of \<open>f # fs\<close>, the first in the list among equals.
\<close>

fun earliest :: "coro \<Rightarrow> coro list \<Rightarrow> coro" where
  "earliest f [] = f"
| "earliest f (c # cs) = earliest (if duration c < duration f then c else f) cs"

definition gather :: "coro list \<Rightarrow> nat \<times> exn option" where
  "gather aws =
     (case filter (\<lambda>c. outcome c \<noteq> None) aws of
        [] \<Rightarrow> (fold max (map duration aws) 0, None)
      | f # fs \<Rightarrow> (let c = earliest f fs in (duration c, outcome c)))"

subsection \<open>Listeners and the registry\<close>

type_synonym attributes = "(string \<times> pyval) list"

text \<open>
  A listener object: its \<open>path\<close>, the attributes \<open>hasattr\<close>/\<open>getattr\<close> find on it, and
  its two methods. \<open>check\<close> is a pure predicate; \<open>handle\<close> returns a coroutine object.
  The registry holds references to listener objects (natural numbers, compared by
  identity as Python compares objects by default); \<open>H\<close> below maps a reference to its object.
\<close>

record listener =
  path :: path
  getattr :: "string \<rightharpoonup> pyval"
  check :: "path \<Rightarrow> nat \<Rightarrow> string \<Rightarrow> attributes \<Rightarrow> bool"
  handle :: "path \<Rightarrow> nat \<Rightarrow> string \<Rightarrow> attributes \<Rightarrow> coro"

fun attrs_match :: "(string \<rightharpoonup> pyval) \<Rightarrow> attributes \<Rightarrow> bool" where
  "attrs_match obj [] = True"
| "attrs_match obj ((attr, v) # rest) =
     (case obj attr of
        None \<Rightarrow> False
      | Some x \<Rightarrow> if x \<noteq> v then False else attrs_match obj rest)"

text \<open>
  \<open>self.paths\<close> is a \<open>defaultdict(list)\<close>: subscripting it with a missing key stores an
  empty list under the key and returns it. \<open>bucket\<close> is what a subscript reads.
\<close>

definition getitem :: "(path \<rightharpoonup> nat list) \<Rightarrow> path \<Rightarrow> nat list \<times> (path \<rightharpoonup> nat list)" where
  "getitem ps p = (case ps p of None \<Rightarrow> ([], ps(p \<mapsto> [])) | Some b \<Rightarrow> (b, ps))"

definition bucket :: "(path \<rightharpoonup> nat list) \<Rightarrow> path \<Rightarrow> nat list" where
  "bucket ps p = fst (getitem ps p)"

text \<open>
  \<open>Router.get(path, **attrs)\<close>; the argument \<open>p\<close> is the value of \<open>PurePath(path)\<close>.
  The result is the listener returned (\<open>None\<close> for Python's \<open>None\<close>) and the dictionary
  after the call.
\<close>

definition get ::
  "(nat \<Rightarrow> listener) \<Rightarrow> (path \<rightharpoonup> nat list) \<Rightarrow> path \<Rightarrow> attributes
     \<Rightarrow> nat option \<times> (path \<rightharpoonup> nat list)" where
  "get H ps p attrs =
     (let (b, ps') = getitem ps p
      in (find (\<lambda>l. attrs_match (getattr (H l)) attrs) b, ps'))"

definition register :: "(nat \<Rightarrow> listener) \<Rightarrow> (path \<rightharpoonup> nat list) \<Rightarrow> nat \<Rightarrow> (path \<rightharpoonup> nat list)" where
  "register H ps l =
     (let (b, ps') = getitem ps (path (H l)) in ps'(path (H l) \<mapsto> b @ [l]))"

text \<open>
  \<open>list.remove(x)\<close> deletes the first item equal to \<open>x\<close> and raises \<open>ValueError\<close> when
  there is none.
\<close>

definition unregister ::
  "(nat \<Rightarrow> listener) \<Rightarrow> (path \<rightharpoonup> nat list) \<Rightarrow> nat \<Rightarrow> (path \<rightharpoonup> nat list) \<times> exn option" where
  "unregister H ps l =
     (let (b, ps') = getitem ps (path (H l))
      in if l \<in> set b then (ps'(path (H l) \<mapsto> remove1 l b), None)
         else (ps', Some (ValueError ''list.remove(x): x not in list'')))"

text \<open>Every listener sits in the bucket of its own path, as \<open>register\<close> puts it.\<close>

definition registered_by_path :: "(nat \<Rightarrow> listener) \<Rightarrow> (path \<rightharpoonup> nat list) \<Rightarrow> bool" where
  "registered_by_path H ps \<longleftrightarrow> (\<forall>p l. l \<in> set (bucket ps p) \<longrightarrow> path (H l) = p)"

subsection \<open>The dispatch loop\<close>

text \<open>
  What the loop does is recorded, in program order, as a list of actions:
  \<open>Get t ...\<close>: \<open>queue.get()\<close> returned the event at time \<open>t\<close>;
  \<open>Process content attributes\<close>: the call of \<open>process_content\<close>;
  \<open>Check l ...\<close> and \<open>Handle l ...\<close>: the calls of the two methods of listener \<open>l\<close>, with
  their arguments;
  \<open>Run l start finish outcome\<close>: \<open>gather\<close> started the coroutine of listener \<open>l\<close> at time
  \<open>start\<close>, and it completes at time \<open>finish\<close>;
  \<open>Resume t error\<close>: the await on \<open>gather\<close> ended at time \<open>t\<close>, raising \<open>error\<close> if any;
  \<open>LogError e\<close>: the \<open>logger.error\<close> record of the \<open>except\<close> clause.
\<close>

datatype action =
    Get nat path nat string attributes
  | Process string attributes
  | Check nat path nat string attributes
  | Handle nat path nat string attributes
  | Run nat nat nat "exn option"
  | Resume nat "exn option"
  | LogError exn

text \<open>
  The router's two slots, the local list \<open>events\<close> of \<open>handle_events\<close> (each coroutine
  object with the listener it came from), the scheduler's clock and the actions so far.
  The code between two awaits takes no scheduler time.
\<close>

record state =
  paths :: "path \<rightharpoonup> nat list"
  queue :: "(path \<times> nat \<times> string \<times> attributes) list"
  events :: "(nat \<times> coro) list"
  clock :: nat
  trace :: "action list"

text \<open>\<open>queue.put_nowait(item)\<close> of the unbounded FIFO \<open>asyncio.Queue\<close>.\<close>

definition put_nowait :: "path \<times> nat \<times> string \<times> attributes \<Rightarrow> state \<Rightarrow> state" where
  "put_nowait item s = s\<lparr>queue := queue s @ [item]\<rparr>"

text \<open>The body of the inner \<open>for listener in self.paths[path]\<close> loop.\<close>

definition visit ::
  "(nat \<Rightarrow> listener) \<Rightarrow> path \<Rightarrow> nat \<Rightarrow> string \<Rightarrow> attributes \<Rightarrow> path \<Rightarrow> nat \<Rightarrow> state \<Rightarrow> state" where
  "visit H event_path g c a p l s =
     (if check (H l) p g c a
      then s\<lparr>events := events s @ [(l, handle (H l) event_path g c a)],
             trace := trace s @ [Check l p g c a, Handle l event_path g c a]\<rparr>
      else s\<lparr>trace := trace s @ [Check l p g c a]\<rparr>)"

text \<open>The body of the outer \<open>for path in chain((event_path,), event_path.parents)\<close> loop.\<close>

definition visit_path ::
  "(nat \<Rightarrow> listener) \<Rightarrow> path \<Rightarrow> nat \<Rightarrow> string \<Rightarrow> attributes \<Rightarrow> path \<Rightarrow> state \<Rightarrow> state" where
  "visit_path H event_path g c a p s =
     (let (b, ps') = getitem (paths s) p
      in fold (visit H event_path g c a p) b (s\<lparr>paths := ps'\<rparr>))"

text \<open>
  One pass through the body of \<open>while True\<close>. \<open>Waiting\<close>: the queue is empty and the task
  is suspended in \<open>queue.get()\<close>; \<open>Next s\<close>: the pass reached \<open>events.clear()\<close> and the loop
  goes round; \<open>Died e s\<close>: the exception \<open>e\<close> left the loop and ended the task.
  \<open>process_content\<close> is the external content processor, a pure function.
\<close>

datatype pass = Waiting | Next state | Died exn state

definition iteration ::
  "(string \<Rightarrow> attributes \<Rightarrow> string) \<Rightarrow> (nat \<Rightarrow> listener) \<Rightarrow> state \<Rightarrow> pass" where
  "iteration process_content H s =
     (case queue s of
        [] \<Rightarrow> Waiting
      | (event_path, g, content, a) # rest \<Rightarrow>
          (let s1 = s\<lparr>queue := rest,
                      trace := trace s @ [Get (clock s) event_path g content a, Process content a]\<rparr>;
               c = process_content content a;
               s2 = fold (visit_path H event_path g c a) (event_path # parents event_path) s1;
               (elapsed, error) = gather (map snd (events s2));
               s3 = s2\<lparr>clock := clock s2 + elapsed,
                       trace := trace s2
                         @ map (\<lambda>(l, co). Run l (clock s2) (clock s2 + duration co) (outcome co))
                             (events s2)
                         @ [Resume (clock s2 + elapsed) error]\<rparr>
           in case error of
                None \<Rightarrow> Next (s3\<lparr>events := []\<rparr>)
              | Some e \<Rightarrow>
                  if is_Exception e
                  then Next (s3\<lparr>events := [], trace := trace s3 @ [LogError e]\<rparr>)
                  else Died e s3))"

text \<open>
  The loop, for at most \<open>n\<close> passes: \<open>Running s\<close> after \<open>n\<close> passes, \<open>Blocked s\<close> when the
  queue ran empty, \<open>Crashed e s\<close> when an exception ended the task.
\<close>

datatype run = Running state | Blocked state | Crashed exn state

fun loop ::
  "(string \<Rightarrow> attributes \<Rightarrow> string) \<Rightarrow> (nat \<Rightarrow> listener) \<Rightarrow> nat \<Rightarrow> state \<Rightarrow> run" where
  "loop process_content H 0 s = Running s"
| "loop process_content H (Suc n) s =
     (case iteration process_content H s of
        Waiting \<Rightarrow> Blocked s
      | Next s' \<Rightarrow> loop process_content H n s'
      | Died e s' \<Rightarrow> Crashed e s')"

definition handle_events ::
  "(string \<Rightarrow> attributes \<Rightarrow> string) \<Rightarrow> (nat \<Rightarrow> listener) \<Rightarrow> nat \<Rightarrow> state \<Rightarrow> run" where
  "handle_events process_content H n s = loop process_content H n (s\<lparr>events := []\<rparr>)"

fun final :: "run \<Rightarrow> state" where
  "final (Running s) = s"
| "final (Blocked s) = s"
| "final (Crashed e s) = s"

fun after :: "state \<Rightarrow> pass \<Rightarrow> state" where
  "after s Waiting = s"
| "after s (Next s') = s'"
| "after s (Died e s') = s'"

text \<open>The actions of one pass: what it appended to the trace.\<close>

definition pass_trace ::
  "(string \<Rightarrow> attributes \<Rightarrow> string) \<Rightarrow> (nat \<Rightarrow> listener) \<Rightarrow> state \<Rightarrow> action list" where
  "pass_trace process_content H s =
     drop (length (trace s)) (trace (after s (iteration process_content H s)))"

subsection \<open>Reading a trace\<close>

text \<open>
  The events dequeued; the listener and first argument of every \<open>check\<close> call; the
  listener and first argument of every \<open>handle\<close> call; the listeners whose coroutines
  \<open>gather\<close> started; the arguments of every \<open>process_content\<close> call; the content
  argument of every \<open>check\<close> and \<open>handle\<close> call; the errors logged.
\<close>

definition gets :: "action list \<Rightarrow> (path \<times> nat \<times> string \<times> attributes) list" where
  "gets tr = concat (map (\<lambda>x. case x of Get t p g c a \<Rightarrow> [(p, g, c, a)] | _ \<Rightarrow> []) tr)"

definition checked :: "action list \<Rightarrow> (nat \<times> path) list" where
  "checked tr = concat (map (\<lambda>x. case x of Check l p g c a \<Rightarrow> [(l, p)] | _ \<Rightarrow> []) tr)"

definition handled :: "action list \<Rightarrow> (nat \<times> path) list" where
  "handled tr = concat (map (\<lambda>x. case x of Handle l p g c a \<Rightarrow> [(l, p)] | _ \<Rightarrow> []) tr)"

definition ran :: "action list \<Rightarrow> nat list" where
  "ran tr = concat (map (\<lambda>x. case x of Run l start finish out \<Rightarrow> [l] | _ \<Rightarrow> []) tr)"

definition processed :: "action list \<Rightarrow> (string \<times> attributes) list" where
  "processed tr = concat (map (\<lambda>x. case x of Process c a \<Rightarrow> [(c, a)] | _ \<Rightarrow> []) tr)"

definition contents :: "action list \<Rightarrow> string list" where
  "contents tr =
     concat (map (\<lambda>x. case x of Check l p g c a \<Rightarrow> [c] | Handle l p g c a \<Rightarrow> [c] | _ \<Rightarrow> []) tr)"

definition logs :: "action list \<Rightarrow> exn list" where
  "logs tr = concat (map (\<lambda>x. case x of LogError e \<Rightarrow> [e] | _ \<Rightarrow> []) tr)"

text \<open>
  \<open>latest m tr\<close>: the latest completion time of the coroutines started in \<open>tr\<close>, at least
  \<open>m\<close>. \<open>sequential m tr\<close>: whenever \<open>tr\<close> dequeues an event, every coroutine started
  before has completed (and so has everything due by time \<open>m\<close>).
\<close>

fun latest :: "nat \<Rightarrow> action list \<Rightarrow> nat" where
  "latest m [] = m"
| "latest m (Run l start finish out # tr) = latest (max m finish) tr"
| "latest m (x # tr) = latest m tr"

fun sequential :: "nat \<Rightarrow> action list \<Rightarrow> bool" where
  "sequential m [] = True"
| "sequential m (Run l start finish out # tr) = sequential (max m finish) tr"
| "sequential m (Get t p g c a # tr) = (m \<le> t \<and> sequential m tr)"
| "sequential m (x # tr) = sequential m tr"

subsection \<open>The two nested loops in closed form\<close>

text \<open>
  What the inner loop over a bucket \<open>b\<close> of path \<open>p\<close> appends to the trace and to
  \<open>events\<close>, and the dictionary after subscripting it with each of the paths \<open>qs\<close>.
\<close>

definition bucket_actions ::
  "(nat \<Rightarrow> listener) \<Rightarrow> path \<Rightarrow> nat \<Rightarrow> string \<Rightarrow> attributes \<Rightarrow> path \<Rightarrow> nat list \<Rightarrow> action list" where
  "bucket_actions H event_path g c a p b =
     concat (map (\<lambda>l. if check (H l) p g c a
                       then [Check l p g c a, Handle l event_path g c a]
                       else [Check l p g c a]) b)"

definition bucket_calls ::
  "(nat \<Rightarrow> listener) \<Rightarrow> path \<Rightarrow> nat \<Rightarrow> string \<Rightarrow> attributes \<Rightarrow> path \<Rightarrow> nat list
     \<Rightarrow> (nat \<times> coro) list" where
  "bucket_calls H event_path g c a p b =
     map (\<lambda>l. (l, handle (H l) event_path g c a)) (filter (\<lambda>l. check (H l) p g c a) b)"

definition touch :: "(path \<rightharpoonup> nat list) \<Rightarrow> path list \<Rightarrow> (path \<rightharpoonup> nat list)" where
  "touch ps qs = fold (\<lambda>p ps'. snd (getitem ps' p)) qs ps"

definition collected ::
  "(nat \<Rightarrow> listener) \<Rightarrow> (path \<rightharpoonup> nat list) \<Rightarrow> path \<Rightarrow> nat \<Rightarrow> string \<Rightarrow> attributes
     \<Rightarrow> (nat \<times> coro) list" where
  "collected H ps event_path g c a =
     concat (map (\<lambda>p. bucket_calls H event_path g c a p (bucket ps p))
                 (event_path # parents event_path))"

text \<open>
  What the two loops append to the trace for one event, and the \<open>Run\<close> actions of the
  coroutines \<open>gather\<close> starts at time \<open>t\<close>.
\<close>

definition collect_actions ::
  "(nat \<Rightarrow> listener) \<Rightarrow> (path \<rightharpoonup> nat list) \<Rightarrow> path \<Rightarrow> nat \<Rightarrow> string \<Rightarrow> attributes
     \<Rightarrow> action list" where
  "collect_actions H ps event_path g c a =
     concat (map (\<lambda>p. bucket_actions H event_path g c a p (bucket ps p))
                 (event_path # parents event_path))"

definition run_actions :: "nat \<Rightarrow> (nat \<times> coro) list \<Rightarrow> action list" where
  "run_actions t calls = map (\<lambda>(l, co). Run l t (t + duration co) (outcome co)) calls"

definition log_actions :: "exn option \<Rightarrow> action list" where
  "log_actions error =
     (case error of None \<Rightarrow> [] | Some e \<Rightarrow> if is_Exception e then [LogError e] else [])"

subsection \<open>An example configuration\<close>

text \<open>
  Listener 1 sits at \<open>/a\<close> and its handler raises after one unit of time; listener 2
  sits at \<open>/a/b\<close> and its handler returns after ten; every other listener sits at
  \<open>/a/b/c/d\<close>. All checks accept. \<open>quiet H\<close> is \<open>H\<close> with handlers that never raise.
\<close>

definition demo_listeners :: "nat \<Rightarrow> listener" where
  "demo_listeners l =
     \<lparr>path = (if l = 1 then PurePath ''/'' [''a'']
              else if l = 2 then PurePath ''/'' [''a'', ''b'']
              else PurePath ''/'' [''a'', ''b'', ''c'', ''d'']),
      getattr = (if l = 1 then [''channel'' \<mapsto> PyObj 5]
                 else if l = 2 then [''channel'' \<mapsto> PyObj 6, ''recursive'' \<mapsto> PyInt 1]
                 else Map.empty),
      check = (\<lambda>p g c a. True),
      handle = (\<lambda>p g c a.
        \<lparr>duration = (if l = 1 then 1 else 10),
         outcome = (if l = 1 then Some (Exception ''boom'') else None)\<rparr>)\<rparr>"

definition quiet :: "(nat \<Rightarrow> listener) \<Rightarrow> nat \<Rightarrow> listener" where
  "quiet H l = (H l)\<lparr>handle := (\<lambda>p g c a. (handle (H l) p g c a)\<lparr>outcome := None\<rparr>)\<rparr>"

definition demo_process :: "string \<Rightarrow> attributes \<Rightarrow> string" where
  "demo_process content a = ''> '' @ content"

definition demo_event :: "path \<times> nat \<times> string \<times> attributes" where
  "demo_event = (PurePath ''/'' [''a'', ''b''], 0, ''role set'', [(''icon'', PyStr ''settings'')])"

text \<open>Listeners 1, 2 and 3 registered in turn, and two events in the queue.\<close>

definition demo_paths :: "path \<rightharpoonup> nat list" where
  "demo_paths =
     register demo_listeners (register demo_listeners (register demo_listeners Map.empty 1) 2) 3"

definition demo_state :: state where
  "demo_state =
     \<lparr>paths = demo_paths, queue = [demo_event, demo_event], events = [], clock = 0, trace = []\<rparr>"

text \<open>Listener 1 registered twice.\<close>

definition twice_state :: state where
  "twice_state =
     \<lparr>paths = register demo_listeners (register demo_listeners Map.empty 1) 1,
      queue = [(PurePath ''/'' [''a''], 0, ''role set'', [])],
      events = [], clock = 0, trace = []\<rparr>"



section \<open>Properties of the hooks\<close>

lemma register_hook_dom:
  "dom hooks = set HOOK_NAMES \<Longrightarrow> dom (fst (register_hook hooks name hook)) = set HOOK_NAMES"
  by (auto simp: register_hook_def split: option.splits if_splits)

lemma register_hook_other:
  "n \<noteq> name \<Longrightarrow> fst (register_hook hooks name hook) n = hooks n"
  by (simp add: register_hook_def split: option.splits)

lemma register_hook_same:
  "name \<in> set HOOK_NAMES \<Longrightarrow> hooks name = Some registered \<Longrightarrow>
   fst (register_hook hooks name hook) name = Some (registered @ [hook])"
  by (simp add: register_hook_def)

lemma register_hooks_dom:
  "dom hooks = set HOOK_NAMES \<Longrightarrow> dom (register_hooks hooks calls) = set HOOK_NAMES"
proof (induction calls arbitrary: hooks)
  case Nil
  then show ?case by simp
next
  case (Cons c calls)
  obtain name hook where c: "c = (name, hook)" by (cases c)
  from Cons.prems have "dom (fst (register_hook hooks name hook)) = set HOOK_NAMES"
    by (rule register_hook_dom)
  then show ?case using Cons.IH c by simp
qed

lemma register_hooks_order:
  "dom hooks = set HOOK_NAMES \<Longrightarrow> hooks name = Some registered \<Longrightarrow>
   register_hooks hooks calls name = Some (registered @ map snd (filter (\<lambda>c. fst c = name) calls))"
proof (induction calls arbitrary: hooks registered)
  case Nil
  then show ?case by simp
next
  case (Cons c calls)
  obtain n hook where c: "c = (n, hook)" by (cases c)
  let ?hooks' = "fst (register_hook hooks n hook)"
  have d: "dom ?hooks' = set HOOK_NAMES" using Cons.prems(1) by (rule register_hook_dom)
  have mem: "name \<in> set HOOK_NAMES" using Cons.prems by auto
  show ?case
  proof (cases "n = name")
    case True
    then have "?hooks' name = Some (registered @ [hook])"
      using register_hook_same [of name hooks registered hook] mem Cons.prems(2) by simp
    from Cons.IH [OF d this] show ?thesis using c True by simp
  next
    case False
    then have "?hooks' name = Some registered"
      using register_hook_other [of name n hooks hook] Cons.prems(2) by simp
    from Cons.IH [OF d this] show ?thesis using c False by simp
  qed
qed

lemma hooks_init_dom: "dom (hooks_init :: string \<rightharpoonup> 'h list) = set HOOK_NAMES"
  by (simp add: hooks_init_def HOOK_NAMES_def dom_def) auto

lemma hooks_init_empty: "name \<in> set HOOK_NAMES \<Longrightarrow> hooks_init name = Some []"
  by (auto simp: hooks_init_def HOOK_NAMES_def)

text \<open>
  Claim C10. \<open>HOOK_NAMES\<close> is the pair \<open>on_guild_join\<close>, \<open>on_guild_leave\<close>.
  \<open>register_hook(name, hook)\<close> raises \<open>ValueError\<close> exactly when \<open>name\<close> is not one of
  them, and then leaves the dictionary as it was; for a name of \<open>HOOK_NAMES\<close> it appends
  \<open>hook\<close> to the list of that name. So, after any sequence of calls on the initial
  dictionary, the keys are exactly \<open>HOOK_NAMES\<close> and the list of each name holds the hooks
  registered under it, in the order of the calls.
\<close>
theorem register_hook_valueerror_iff:
  "set HOOK_NAMES = {''on_guild_join'', ''on_guild_leave''}
   \<and> ((\<exists>msg. snd (register_hook hooks name (hook :: 'h)) = Some (ValueError msg))
        \<longleftrightarrow> name \<notin> set HOOK_NAMES)
   \<and> (name \<notin> set HOOK_NAMES \<longrightarrow> fst (register_hook hooks name hook) = hooks)
   \<and> (name \<in> set HOOK_NAMES \<longrightarrow> hooks name = Some registered \<longrightarrow>
        register_hook hooks name hook = (hooks(name \<mapsto> registered @ [hook]), None))
   \<and> dom (register_hooks hooks_init (calls :: (string \<times> 'h) list)) = set HOOK_NAMES
   \<and> (name \<in> set HOOK_NAMES \<longrightarrow>
        register_hooks hooks_init calls name = Some (map snd (filter (\<lambda>c. fst c = name) calls)))"
proof -
  have a: "set HOOK_NAMES = {''on_guild_join'', ''on_guild_leave''}"
    by (simp add: HOOK_NAMES_def)
  have b: "(\<exists>msg. snd (register_hook hooks name hook) = Some (ValueError msg)) \<longleftrightarrow> name \<notin> set HOOK_NAMES"
    by (simp add: register_hook_def split: option.splits)
  have c: "name \<notin> set HOOK_NAMES \<longrightarrow> fst (register_hook hooks name hook) = hooks"
    by (simp add: register_hook_def)
  have d: "name \<in> set HOOK_NAMES \<longrightarrow> hooks name = Some registered \<longrightarrow>
        register_hook hooks name hook = (hooks(name \<mapsto> registered @ [hook]), None)"
    by (simp add: register_hook_def)
  have e: "dom (register_hooks hooks_init calls) = set HOOK_NAMES"
    using hooks_init_dom by (rule register_hooks_dom)
  have f: "name \<in> set HOOK_NAMES \<longrightarrow>
        register_hooks hooks_init calls name = Some (map snd (filter (\<lambda>c. fst c = name) calls))"
    using register_hooks_order [OF hooks_init_dom hooks_init_empty, of name calls] by simp
  from a b c d e f show ?thesis by blast
qed

theorem register_hook_valueerror_iff_witness:
  "''on_guild_join'' \<in> set HOOK_NAMES \<and> ''on_message'' \<notin> set HOOK_NAMES
   \<and> (hooks_init :: string \<rightharpoonup> nat list) ''on_guild_join'' = Some []
   \<and> fst (register_hook (hooks_init :: string \<rightharpoonup> nat list) ''on_message'' 7) = hooks_init
   \<and> (\<exists>msg. snd (register_hook (hooks_init :: string \<rightharpoonup> nat list) ''on_message'' 7) = Some (ValueError msg))
   \<and> register_hook (hooks_init :: string \<rightharpoonup> nat list) ''on_guild_join'' 7
       = (hooks_init(''on_guild_join'' \<mapsto> [7]), None)
   \<and> register_hooks (hooks_init :: string \<rightharpoonup> nat list)
        [(''on_guild_join'', 1), (''on_guild_leave'', 2), (''on_message'', 3), (''on_guild_join'', 4)]
        ''on_guild_join'' = Some [1, 4]"
proof -
  have m: "''on_guild_join'' \<in> set HOOK_NAMES" and n: "''on_message'' \<notin> set HOOK_NAMES"
    by (simp_all add: HOOK_NAMES_def)
  have i: "(hooks_init :: string \<rightharpoonup> nat list) ''on_guild_join'' = Some []"
    by (simp add: hooks_init_def HOOK_NAMES_def)
  note t1 = register_hook_valueerror_iff [where hooks = "hooks_init :: string \<rightharpoonup> nat list"
      and name = "''on_message''" and hook = 7 and registered = "[]" and calls = "[]"]
  note t2 = register_hook_valueerror_iff [where hooks = "hooks_init :: string \<rightharpoonup> nat list"
      and name = "''on_guild_join''" and hook = 7 and registered = "[]"
      and calls = "[(''on_guild_join'', 1), (''on_guild_leave'', 2), (''on_message'', 3), (''on_guild_join'', 4)]"]
  have r1: "fst (register_hook (hooks_init :: string \<rightharpoonup> nat list) ''on_message'' 7) = hooks_init"
    and r2: "\<exists>msg. snd (register_hook (hooks_init :: string \<rightharpoonup> nat list) ''on_message'' 7)
               = Some (ValueError msg)"
    using t1 n by blast+
  have r3: "register_hook (hooks_init :: string \<rightharpoonup> nat list) ''on_guild_join'' 7
       = (hooks_init(''on_guild_join'' \<mapsto> [] @ [7]), None)"
    using t2 m i by blast
  have r4: "register_hooks (hooks_init :: string \<rightharpoonup> nat list)
        [(''on_guild_join'', 1), (''on_guild_leave'', 2), (''on_message'', 3), (''on_guild_join'', 4)]
        ''on_guild_join''
      = Some (map snd (filter (\<lambda>c. fst c = ''on_guild_join'')
          [(''on_guild_join'', 1), (''on_guild_leave'', 2), (''on_message'', 3), (''on_guild_join'', 4)]))"
    using t2 m by blast
  have r5: "map snd (filter (\<lambda>c. fst c = ''on_guild_join'')
          [(''on_guild_join'', 1::nat), (''on_guild_leave'', 2), (''on_message'', 3), (''on_guild_join'', 4)])
        = [1, 4]"
    by simp
  show ?thesis using m n i r1 r2 r3 r4 [unfolded r5] by (simp del: register_hooks.simps)
qed






section \<open>Properties of the registry\<close>

lemma bucket_eq: "bucket ps p = (case ps p of None \<Rightarrow> [] | Some b \<Rightarrow> b)"
  by (simp add: bucket_def getitem_def split: option.splits)

lemma fst_getitem: "fst (getitem ps p) = bucket ps p"
  by (simp add: bucket_def)

lemma bucket_getitem: "bucket (snd (getitem ps p)) q = bucket ps q"
  by (simp add: bucket_eq getitem_def split: option.splits)

lemma bucket_upd: "bucket (ps(p \<mapsto> b)) q = (if q = p then b else bucket ps q)"
  by (simp add: bucket_eq)

lemma bucket_register:
  "bucket (register H ps l) q = (if q = path (H l) then bucket ps q @ [l] else bucket ps q)"
  by (simp add: register_def bucket_eq getitem_def split: option.splits prod.splits)

lemma unregister_present:
  "l \<in> set (bucket ps (path (H l))) \<Longrightarrow>
   snd (unregister H ps l) = None
   \<and> bucket (fst (unregister H ps l)) q
       = (if q = path (H l) then remove1 l (bucket ps q) else bucket ps q)"
  by (auto simp: unregister_def bucket_eq getitem_def split: option.splits prod.splits)

lemma unregister_absent:
  "l \<notin> set (bucket ps (path (H l))) \<Longrightarrow>
   (\<exists>msg. snd (unregister H ps l) = Some (ValueError msg))
   \<and> bucket (fst (unregister H ps l)) q = bucket ps q"
  by (auto simp: unregister_def bucket_eq getitem_def split: option.splits prod.splits)

text \<open>
  Claim C6. When the listener is in the bucket of its path, \<open>unregister\<close> raises nothing,
  removes its first occurrence from that bucket and changes no other bucket. When it is
  not, \<open>unregister\<close> raises \<open>ValueError\<close> (the list-removal error, the spec's NotFound)
  and every bucket reads as before. After \<open>register\<close> and \<open>unregister\<close> of the same
  listener on an empty bucket, the bucket is empty. Buckets are compared as a subscript
  reads them: the \<open>defaultdict\<close> may have gained a key with an empty list.
\<close>
theorem unregister_removes_first:
  "(l \<in> set (bucket ps (path (H l))) \<longrightarrow>
      snd (unregister H ps l) = None
      \<and> bucket (fst (unregister H ps l)) (path (H l)) = remove1 l (bucket ps (path (H l)))
      \<and> (\<forall>xs ys. bucket ps (path (H l)) = xs @ l # ys \<and> l \<notin> set xs \<longrightarrow>
            bucket (fst (unregister H ps l)) (path (H l)) = xs @ ys)
      \<and> (\<forall>q. q \<noteq> path (H l) \<longrightarrow> bucket (fst (unregister H ps l)) q = bucket ps q))
   \<and> (l \<notin> set (bucket ps (path (H l))) \<longrightarrow>
      (\<exists>msg. snd (unregister H ps l) = Some (ValueError msg))
      \<and> (\<forall>q. bucket (fst (unregister H ps l)) q = bucket ps q))
   \<and> (bucket ps (path (H l)) = [] \<longrightarrow>
      snd (unregister H (register H ps l) l) = None
      \<and> bucket (fst (unregister H (register H ps l) l)) (path (H l)) = [])"
proof -
  let ?p = "path (H l)"
  have a: "l \<in> set (bucket ps ?p) \<longrightarrow>
      snd (unregister H ps l) = None
      \<and> bucket (fst (unregister H ps l)) ?p = remove1 l (bucket ps ?p)
      \<and> (\<forall>xs ys. bucket ps ?p = xs @ l # ys \<and> l \<notin> set xs \<longrightarrow>
            bucket (fst (unregister H ps l)) ?p = xs @ ys)
      \<and> (\<forall>q. q \<noteq> ?p \<longrightarrow> bucket (fst (unregister H ps l)) q = bucket ps q)"
  proof
    assume m: "l \<in> set (bucket ps ?p)"
    have r: "bucket (fst (unregister H ps l)) ?p = remove1 l (bucket ps ?p)"
      using unregister_present [of l ps H ?p] m by simp
    have "\<forall>xs ys. bucket ps ?p = xs @ l # ys \<and> l \<notin> set xs \<longrightarrow>
            bucket (fst (unregister H ps l)) ?p = xs @ ys"
      using r by (auto simp: remove1_append)
    moreover have "\<forall>q. q \<noteq> ?p \<longrightarrow> bucket (fst (unregister H ps l)) q = bucket ps q"
      using unregister_present [of l ps H] m by simp
    ultimately show "snd (unregister H ps l) = None
      \<and> bucket (fst (unregister H ps l)) ?p = remove1 l (bucket ps ?p)
      \<and> (\<forall>xs ys. bucket ps ?p = xs @ l # ys \<and> l \<notin> set xs \<longrightarrow>
            bucket (fst (unregister H ps l)) ?p = xs @ ys)
      \<and> (\<forall>q. q \<noteq> ?p \<longrightarrow> bucket (fst (unregister H ps l)) q = bucket ps q)"
      using r unregister_present [of l ps H ?p] m by simp
  qed
  have b: "l \<notin> set (bucket ps ?p) \<longrightarrow>
      (\<exists>msg. snd (unregister H ps l) = Some (ValueError msg))
      \<and> (\<forall>q. bucket (fst (unregister H ps l)) q = bucket ps q)"
    using unregister_absent [of l ps H] by blast
  have c: "bucket ps ?p = [] \<longrightarrow>
      snd (unregister H (register H ps l) l) = None
      \<and> bucket (fst (unregister H (register H ps l) l)) ?p = []"
  proof
    assume e: "bucket ps ?p = []"
    have m: "l \<in> set (bucket (register H ps l) ?p)"
      by (simp add: bucket_register)
    show "snd (unregister H (register H ps l) l) = None
      \<and> bucket (fst (unregister H (register H ps l) l)) ?p = []"
      using unregister_present [of l "register H ps l" H ?p] m e by (simp add: bucket_register)
  qed
  from a b c show ?thesis by blast
qed

lemma attrs_match_iff: "attrs_match obj attrs \<longleftrightarrow> (\<forall>(k, v)\<in>set attrs. obj k = Some v)"
  by (induction obj attrs rule: attrs_match.induct) (auto split: option.splits)

lemma fst_get: "fst (get H ps p attrs) = find (\<lambda>l. attrs_match (getattr (H l)) attrs) (bucket ps p)"
  by (simp add: get_def bucket_def split: prod.splits)

lemma snd_get: "snd (get H ps p attrs) = snd (getitem ps p)"
  by (simp add: get_def split: prod.splits)

text \<open>
  Claim C7. \<open>attrs_match\<close> holds exactly when every entry of \<open>attrs\<close> is an attribute of
  the object with an equal value. \<open>get(path, attrs)\<close> returns the first listener of the
  bucket of \<open>path\<close>, in registration order, that matches; it returns \<open>None\<close> exactly when
  no listener of that bucket matches; a listener it returns is registered at \<open>path\<close>
  itself; a path with no registrations reads as the empty bucket and gives \<open>None\<close>, with
  no error; and the lookup leaves every bucket as it was.
\<close>
theorem get_first_match:
  "(attrs_match (getattr (H l)) attrs \<longleftrightarrow> (\<forall>(k, v)\<in>set attrs. getattr (H l) k = Some v))
   \<and> (fst (get H ps p attrs) = Some l \<longleftrightarrow>
        (\<exists>i<length (bucket ps p). bucket ps p ! i = l \<and> attrs_match (getattr (H l)) attrs
           \<and> (\<forall>j<i. \<not> attrs_match (getattr (H (bucket ps p ! j))) attrs)))
   \<and> (fst (get H ps p attrs) = None \<longleftrightarrow>
        (\<forall>l'\<in>set (bucket ps p). \<not> attrs_match (getattr (H l')) attrs))
   \<and> (registered_by_path H ps \<longrightarrow> fst (get H ps p attrs) = Some l \<longrightarrow> path (H l) = p)
   \<and> (ps p = None \<longrightarrow> bucket ps p = [] \<and> fst (get H ps p attrs) = None)
   \<and> (\<forall>q. bucket (snd (get H ps p attrs)) q = bucket ps q)"
proof -
  have a: "attrs_match (getattr (H l)) attrs \<longleftrightarrow> (\<forall>(k, v)\<in>set attrs. getattr (H l) k = Some v)"
    by (rule attrs_match_iff)
  have b: "fst (get H ps p attrs) = Some l \<longleftrightarrow>
        (\<exists>i<length (bucket ps p). bucket ps p ! i = l \<and> attrs_match (getattr (H l)) attrs
           \<and> (\<forall>j<i. \<not> attrs_match (getattr (H (bucket ps p ! j))) attrs))"
    unfolding fst_get find_Some_iff by auto
  have c: "fst (get H ps p attrs) = None \<longleftrightarrow>
        (\<forall>l'\<in>set (bucket ps p). \<not> attrs_match (getattr (H l')) attrs)"
    unfolding fst_get find_None_iff by auto
  have d: "registered_by_path H ps \<longrightarrow> fst (get H ps p attrs) = Some l \<longrightarrow> path (H l) = p"
    unfolding b registered_by_path_def using nth_mem by blast
  have e: "ps p = None \<longrightarrow> bucket ps p = [] \<and> fst (get H ps p attrs) = None"
    by (simp add: fst_get bucket_eq)
  have f: "\<forall>q. bucket (snd (get H ps p attrs)) q = bucket ps q"
    by (simp add: snd_get bucket_getitem)
  from a b c d e f show ?thesis by blast
qed

lemma bucket_empty: "bucket Map.empty p = []"
  by (simp add: bucket_eq)

lemma registered_by_path_empty: "registered_by_path H Map.empty"
  by (simp add: registered_by_path_def bucket_eq)

lemma registered_by_path_register:
  "registered_by_path H ps \<Longrightarrow> registered_by_path H (register H ps l)"
  by (auto simp: registered_by_path_def bucket_register split: if_splits)

lemma registered_by_path_unregister:
  "registered_by_path H ps \<Longrightarrow> registered_by_path H (fst (unregister H ps l))"
proof (cases "l \<in> set (bucket ps (path (H l)))")
  case True
  assume r: "registered_by_path H ps"
  show ?thesis
    unfolding registered_by_path_def
  proof (intro allI impI)
    fix p l'
    assume "l' \<in> set (bucket (fst (unregister H ps l)) p)"
    then have "l' \<in> set (bucket ps p)"
      using unregister_present [of l ps H p] True set_remove1_subset [of l "bucket ps p"]
      by (auto split: if_splits)
    then show "path (H l') = p" using r by (simp add: registered_by_path_def)
  qed
next
  case False
  assume r: "registered_by_path H ps"
  then show ?thesis
    using unregister_absent [of l ps H] False by (simp add: registered_by_path_def)
qed


lemma demo_paths_a: "bucket demo_paths (PurePath ''/'' [''a'']) = [1]"
  by (simp add: demo_paths_def bucket_register demo_listeners_def bucket_empty)

lemma demo_paths_ab: "bucket demo_paths (PurePath ''/'' [''a'', ''b'']) = [2]"
  by (simp add: demo_paths_def bucket_register demo_listeners_def bucket_empty)

lemma demo_paths_abcd: "bucket demo_paths (PurePath ''/'' [''a'', ''b'', ''c'', ''d'']) = [3]"
  by (simp add: demo_paths_def bucket_register demo_listeners_def bucket_empty)

lemma demo_paths_other:
  "p \<noteq> PurePath ''/'' [''a''] \<Longrightarrow> p \<noteq> PurePath ''/'' [''a'', ''b''] \<Longrightarrow>
   p \<noteq> PurePath ''/'' [''a'', ''b'', ''c'', ''d''] \<Longrightarrow> bucket demo_paths p = []"
  by (simp add: demo_paths_def bucket_register demo_listeners_def bucket_empty)

lemma twice_paths_a: "bucket (paths twice_state) (PurePath ''/'' [''a'']) = [1, 1]"
  by (simp add: twice_state_def bucket_register demo_listeners_def bucket_empty)

lemma demo_path_1: "path (demo_listeners 1) = PurePath ''/'' [''a'']"
  and demo_path_2: "path (demo_listeners 2) = PurePath ''/'' [''a'', ''b'']"
  and demo_path_4: "path (demo_listeners 4) = PurePath ''/'' [''a'', ''b'', ''c'', ''d'']"
  by (simp_all add: demo_listeners_def)

theorem unregister_removes_first_witness:
  "1 \<in> set (bucket (paths twice_state) (path (demo_listeners 1)))
   \<and> bucket (paths twice_state) (path (demo_listeners 1)) = [] @ 1 # [1]
   \<and> snd (unregister demo_listeners (paths twice_state) 1) = None
   \<and> bucket (fst (unregister demo_listeners (paths twice_state) 1)) (path (demo_listeners 1)) = [1]
   \<and> bucket (fst (unregister demo_listeners (paths twice_state) 1)) (PurePath ''/'' [''a'', ''b''])
       = bucket (paths twice_state) (PurePath ''/'' [''a'', ''b''])
   \<and> 4 \<notin> set (bucket demo_paths (path (demo_listeners 4)))
   \<and> (\<exists>msg. snd (unregister demo_listeners demo_paths 4) = Some (ValueError msg))
   \<and> bucket (fst (unregister demo_listeners demo_paths 4)) (path (demo_listeners 4)) = [3]
   \<and> bucket Map.empty (path (demo_listeners 1)) = []
   \<and> snd (unregister demo_listeners (register demo_listeners Map.empty 1) 1) = None
   \<and> bucket (fst (unregister demo_listeners (register demo_listeners Map.empty 1) 1))
        (path (demo_listeners 1)) = []"
proof -
  have h1: "1 \<in> set (bucket (paths twice_state) (path (demo_listeners 1)))"
    unfolding demo_path_1 twice_paths_a by simp
  have h2: "bucket (paths twice_state) (path (demo_listeners 1)) = [] @ 1 # [1] \<and> 1 \<notin> set ([] :: nat list)"
    unfolding demo_path_1 twice_paths_a by simp
  have h3: "PurePath ''/'' [''a'', ''b''] \<noteq> path (demo_listeners 1)"
    unfolding demo_path_1 by simp
  have h4: "4 \<notin> set (bucket demo_paths (path (demo_listeners 4)))"
    unfolding demo_path_4 demo_paths_abcd by simp
  have h5: "bucket Map.empty (path (demo_listeners 1)) = []"
    by (simp add: bucket_eq)
  note t1 = unregister_removes_first [of 1 "paths twice_state" demo_listeners]
  note t2 = unregister_removes_first [of 4 demo_paths demo_listeners]
  note t3 = unregister_removes_first [of 1 Map.empty demo_listeners]
  have c1: "snd (unregister demo_listeners (paths twice_state) 1) = None"
    and c2: "bucket (fst (unregister demo_listeners (paths twice_state) 1)) (path (demo_listeners 1))
              = [] @ [1]"
    and c3: "bucket (fst (unregister demo_listeners (paths twice_state) 1)) (PurePath ''/'' [''a'', ''b''])
       = bucket (paths twice_state) (PurePath ''/'' [''a'', ''b''])"
    using t1 h1 h2 h3 by blast+
  have c4: "\<exists>msg. snd (unregister demo_listeners demo_paths 4) = Some (ValueError msg)"
    and c5: "bucket (fst (unregister demo_listeners demo_paths 4)) (path (demo_listeners 4))
              = bucket demo_paths (path (demo_listeners 4))"
    using t2 h4 by blast+
  have c6: "snd (unregister demo_listeners (register demo_listeners Map.empty 1) 1) = None"
    and c7: "bucket (fst (unregister demo_listeners (register demo_listeners Map.empty 1) 1))
        (path (demo_listeners 1)) = []"
    using t3 h5 by blast+
  have c5': "bucket (fst (unregister demo_listeners demo_paths 4)) (path (demo_listeners 4)) = [3]"
    using c5 unfolding demo_path_4 demo_paths_abcd by simp
  from h1 h2 h4 h5 c1 c2 c3 c4 c5' c6 c7 show ?thesis by simp
qed

lemma demo_registered: "registered_by_path demo_listeners demo_paths"
  unfolding demo_paths_def
  by (intro registered_by_path_register registered_by_path_empty)

theorem get_first_match_witness:
  "registered_by_path demo_listeners demo_paths
   \<and> attrs_match (getattr (demo_listeners 2)) [(''channel'', PyObj 6)]
   \<and> \<not> attrs_match (getattr (demo_listeners 1)) [(''channel'', PyObj 6)]
   \<and> fst (get demo_listeners demo_paths (PurePath ''/'' [''a'', ''b'']) [(''channel'', PyObj 6)]) = Some 2
   \<and> path (demo_listeners 2) = PurePath ''/'' [''a'', ''b'']
   \<and> fst (get demo_listeners demo_paths (PurePath ''/'' [''a'']) [(''channel'', PyObj 6)]) = None
   \<and> demo_paths (PurePath ''/'' [''z'']) = None
   \<and> fst (get demo_listeners demo_paths (PurePath ''/'' [''z'']) [(''channel'', PyObj 6)]) = None"
proof -
  note t1 = get_first_match [of demo_listeners 2 "[(''channel'', PyObj 6)]" demo_paths
      "PurePath ''/'' [''a'', ''b'']"]
  note t2 = get_first_match [of demo_listeners 1 "[(''channel'', PyObj 6)]" demo_paths
      "PurePath ''/'' [''a'']"]
  note t3 = get_first_match [of demo_listeners 1 "[(''channel'', PyObj 6)]" demo_paths
      "PurePath ''/'' [''z'']"]
  have m2: "attrs_match (getattr (demo_listeners 2)) [(''channel'', PyObj 6)]"
    using t1 by (simp add: demo_listeners_def)
  have m1: "\<not> attrs_match (getattr (demo_listeners 1)) [(''channel'', PyObj 6)]"
    using t2 by (simp add: demo_listeners_def)
  have g2: "fst (get demo_listeners demo_paths (PurePath ''/'' [''a'', ''b'']) [(''channel'', PyObj 6)]) = Some 2"
  proof -
    have "\<exists>i<length (bucket demo_paths (PurePath ''/'' [''a'', ''b''])).
       bucket demo_paths (PurePath ''/'' [''a'', ''b'']) ! i = 2
       \<and> attrs_match (getattr (demo_listeners 2)) [(''channel'', PyObj 6)]
       \<and> (\<forall>j<i. \<not> attrs_match (getattr (demo_listeners (bucket demo_paths (PurePath ''/'' [''a'', ''b'']) ! j)))
             [(''channel'', PyObj 6)])"
      using m2 by (intro exI [of _ 0]) (simp add: demo_paths_ab)
    then show ?thesis using t1 by blast
  qed
  have p2: "path (demo_listeners 2) = PurePath ''/'' [''a'', ''b'']"
    using t1 g2 demo_registered by blast
  have g1: "fst (get demo_listeners demo_paths (PurePath ''/'' [''a'']) [(''channel'', PyObj 6)]) = None"
  proof -
    have "\<forall>l'\<in>set (bucket demo_paths (PurePath ''/'' [''a''])).
        \<not> attrs_match (getattr (demo_listeners l')) [(''channel'', PyObj 6)]"
      using m1 by (simp add: demo_paths_a)
    then show ?thesis using t2 by blast
  qed
  have z: "demo_paths (PurePath ''/'' [''z'']) = None"
    by (simp add: demo_paths_def register_def getitem_def demo_listeners_def)
  have g3: "fst (get demo_listeners demo_paths (PurePath ''/'' [''z'']) [(''channel'', PyObj 6)]) = None"
    using t3 z by blast
  from demo_registered m2 m1 g2 p2 g1 z g3 show ?thesis by blast
qed


end
